theory Spec2Isabelle
  imports Main "HOL-Library.Word" "HOL-Library.Signed_Division"
begin

unbundle bit_operations_syntax

section \<open>The MH-Z14A reader (mhz14a.cpp)\<close>

text \<open>
  A shallow embedding of \<^verbatim>\<open>mhz14a.cpp\<close>. An \<^verbatim>\<open>unsigned char\<close> is an 8-bit word, so that
  \<^verbatim>\<open>checksum += c\<close> wraps; \<^verbatim>\<open>int\<close> and \<^verbatim>\<open>time_t\<close> values are integers (none of the
  arithmetic of the program on them leaves the 32-bit range for the inputs of interest:
  \<^verbatim>\<open>256*byte3 + c\<close> is at most 65535 and \<^verbatim>\<open>rxstate\<close> is only incremented in states 4 to 8).
\<close>

type_synonym byte = "8 word"

subsection \<open>The receive state machine\<close>

text \<open>
  The enumeration \<^verbatim>\<open>PacketType\<close>. Its first member is called \<^verbatim>\<open>None\<close> in the source; it is
  \<open>None_packet\<close> here, since \<open>None\<close> is the constructor of \<open>option\<close>.
\<close>

datatype PacketType = None_packet | CO2Level | ABCOff | SetRange | Other

text \<open>
  The variables that \<^verbatim>\<open>rx_packet\<close> reads and writes: its four function statics and the
  global \<^verbatim>\<open>co2_level\<close>.
\<close>

record decoder =
  rxstate :: int
  checksum :: byte
  byte3 :: byte
  packet :: PacketType
  co2_level :: int

text \<open>
  The initial values: \<^verbatim>\<open>rxstate = 1\<close>, \<^verbatim>\<open>checksum = 0\<close>, \<^verbatim>\<open>packet = None\<close>,
  \<^verbatim>\<open>co2_level = -1\<close>; \<^verbatim>\<open>byte3\<close> has no initialiser and is a static, hence zero.
\<close>

definition decoder_init :: decoder where
  "decoder_init = \<lparr>rxstate = 1, checksum = 0, byte3 = 0, packet = None_packet, co2_level = - 1\<rparr>"

text \<open>The inner \<^verbatim>\<open>switch(c)\<close> of state 2.\<close>

definition classify :: "byte \<Rightarrow> PacketType" where
  "classify c =
     (if c = 0x86 then CO2Level
      else if c = 0x79 then ABCOff
      else if c = 0x99 then SetRange
      else Other)"

text \<open>
  One call of \<^verbatim>\<open>rx_packet\<close>. The first argument is the outcome of \<^verbatim>\<open>read(fd,&c,1)\<close>:
  \<open>Some c\<close> when it returned 1, \<open>None\<close> otherwise. The result is the returned packet type
  and the updated variables. State 4 falls through to the increment shared with states
  5 to 8; a state outside 1 to 9 takes the \<^verbatim>\<open>default\<close> branch.
\<close>

definition rx_packet :: "byte option \<Rightarrow> decoder \<Rightarrow> PacketType \<times> decoder" where
  "rx_packet rd d =
     (case rd of
        None \<Rightarrow> (None_packet, d)
      | Some c \<Rightarrow>
          let d = d\<lparr>checksum := checksum d + c\<rparr> in
          if rxstate d = 1 then
            (None_packet, if c = 0xff then d\<lparr>rxstate := 2, checksum := c\<rparr> else d)
          else if rxstate d = 2 then
            (None_packet, d\<lparr>packet := classify c, rxstate := 3\<rparr>)
          else if rxstate d = 3 then
            (None_packet, d\<lparr>byte3 := c, rxstate := 4\<rparr>)
          else if rxstate d = 4 then
            (let d = (if packet d = CO2Level
                      then d\<lparr>co2_level := 256 * uint (byte3 d) + uint c\<rparr> else d)
             in (None_packet, d\<lparr>rxstate := rxstate d + 1\<rparr>))
          else if rxstate d = 5 \<or> rxstate d = 6 \<or> rxstate d = 7 \<or> rxstate d = 8 then
            (None_packet, d\<lparr>rxstate := rxstate d + 1\<rparr>)
          else if rxstate d = 9 then
            (if checksum d = 0xff then packet d else None_packet, d\<lparr>rxstate := 1\<rparr>)
          else (None_packet, d))"

text \<open>
  Successive calls of \<^verbatim>\<open>rx_packet\<close>, one per read outcome: the list of the values
  returned, in order, and the variables after the last call.
\<close>

fun feed :: "byte option list \<Rightarrow> decoder \<Rightarrow> PacketType list \<times> decoder" where
  "feed [] d = ([], d)"
| "feed (r # rs) d =
     (case rx_packet r d of (p, d') \<Rightarrow>
        (case feed rs d' of (ps, d'') \<Rightarrow> (p # ps, d'')))"

text \<open>The bytes that a list of read outcomes delivers, in order.\<close>

definition consumed :: "byte option list \<Rightarrow> byte list" where
  "consumed rs = concat (map (\<lambda>r. case r of None \<Rightarrow> [] | Some c \<Rightarrow> [c]) rs)"

text \<open>
  A received frame as the wire protocol has it: nine bytes, the first one the sentinel,
  the sum of all nine equal to 0xFF modulo 256.
\<close>

definition valid_frame :: "byte list \<Rightarrow> bool" where
  "valid_frame f \<longleftrightarrow> length f = 9 \<and> f ! 0 = 0xff \<and> sum_list f = 0xff"

text \<open>The frames of scenarios S2 and S3.\<close>

definition frame_420 :: "byte list" where
  "frame_420 = [0xff, 0x86, 0x01, 0xA4, 0x00, 0x00, 0x00, 0x00, 0xD5]"

definition frame_corrupt :: "byte list" where
  "frame_corrupt = [0xff, 0x86, 0x01, 0xA4, 0x00, 0x00, 0x00, 0x00, 0x00]"

subsection \<open>The link, the output streams and the send operations\<close>

text \<open>
  What the program exchanges with its environment, and its variables. \<open>link_rx\<close> holds
  the outcomes of the calls of \<^verbatim>\<open>read\<close> still to come (once it is empty, no byte arrives
  any more and \<^verbatim>\<open>read\<close> does not return 1); \<open>link_tx\<close> the buffers handed to
  \<^verbatim>\<open>write(fd,buf,9)\<close>, oldest first; \<open>stdout\<close> the values printed by
  \<^verbatim>\<open>printf("%d\n",co2_level)\<close>, one per line (\<^verbatim>\<open>TRACE\<close> is 0, so nothing else is printed);
  \<open>stderr\<close> the messages of \<^verbatim>\<open>fprintf(stderr,...)\<close>.
\<close>

record world =
  link_rx :: "byte option list"
  link_tx :: "byte list list"
  stdout :: "int list"
  stderr :: "string list"
  dec :: decoder

definition world_init :: "byte option list \<Rightarrow> world" where
  "world_init rx = \<lparr>link_rx = rx, link_tx = [], stdout = [], stderr = [], dec = decoder_init\<rparr>"

definition read_fd :: "world \<Rightarrow> byte option \<times> world" where
  "read_fd w = (case link_rx w of [] \<Rightarrow> (None, w) | r # rs \<Rightarrow> (r, w\<lparr>link_rx := rs\<rparr>))"

definition write_fd :: "byte list \<Rightarrow> world \<Rightarrow> world" where
  "write_fd buf w = w\<lparr>link_tx := link_tx w @ [buf]\<rparr>"

text \<open>\<^verbatim>\<open>rx_packet(fd)\<close>: the read, then the state machine on its outcome.\<close>

definition rx_packet_fd :: "world \<Rightarrow> PacketType \<times> world" where
  "rx_packet_fd w =
     (case read_fd w of (r, w') \<Rightarrow>
        (case rx_packet r (dec w') of (p, d) \<Rightarrow> (p, w'\<lparr>dec := d\<rparr>)))"

text \<open>So many successive calls of \<^verbatim>\<open>rx_packet(fd)\<close>: the values returned and the world after.\<close>

fun pump :: "nat \<Rightarrow> world \<Rightarrow> PacketType list \<times> world" where
  "pump 0 w = ([], w)"
| "pump (Suc n) w =
     (case rx_packet_fd w of (p, w') \<Rightarrow>
        (case pump n w' of (ps, w'') \<Rightarrow> (p # ps, w'')))"

definition request_frame :: "byte list" where
  "request_frame = [0xff, 0x01, 0x86, 0x00, 0x00, 0x00, 0x00, 0x00, 0x79]"

definition abc_off_frame :: "byte list" where
  "abc_off_frame = [0xff, 0x01, 0x79, 0x00, 0x00, 0x00, 0x00, 0x00, 0x86]"

definition request_co2_level :: "world \<Rightarrow> world" where
  "request_co2_level w = write_fd request_frame w"

definition abc_off :: "world \<Rightarrow> world" where
  "abc_off w = write_fd abc_off_frame w"

text \<open>
  \<^verbatim>\<open>set_range\<close>: the returned \<^verbatim>\<open>int\<close> and the world after. \<^verbatim>\<open>range/256\<close> and
  \<^verbatim>\<open>range%256\<close> are C's truncating division and remainder, stored into an
  \<^verbatim>\<open>unsigned char\<close>; the checksum expression is evaluated on \<^verbatim>\<open>int\<close>, the bytes being
  promoted, and stored into an \<^verbatim>\<open>unsigned char\<close>. The buffer is a static, but the only
  bytes the function ever changes (3, 4 and 8) are written on every call that reaches
  \<^verbatim>\<open>write\<close>, so what is written depends on the range alone. The parameter
  is \<open>range'\<close> here, \<open>range\<close> being a constant of HOL.
\<close>

definition set_range :: "int \<Rightarrow> world \<Rightarrow> int \<times> world" where
  "set_range range' w =
     (let buf = [0xff, 0x01, 0x99, 0x00, 0x00, 0x00, 0x00, 0x00, 0x00 :: byte] in
      if range' \<noteq> 2000 \<and> range' \<noteq> 5000 \<and> range' \<noteq> 10000 then (- 1, w)
      else
        let buf = buf[3 := word_of_int (range' sdiv 256)];
            buf = buf[4 := word_of_int (range' smod 256)];
            buf = buf[8 := word_of_int
                    ((0xff - ((uint (buf ! 1) + uint (buf ! 2) + uint (buf ! 3) + uint (buf ! 4)
                               + uint (buf ! 5) + uint (buf ! 6) + uint (buf ! 7)) AND 0xff)
                      + 1) AND 0xff)]
        in (0, write_fd buf w))"

subsection \<open>The session controller\<close>

text \<open>
  The clock is the list of the values that the successive calls of \<^verbatim>\<open>time(NULL)\<close>
  return, in whole seconds. A loop that is still running when the list ends has not
  finished within the observation.

  \<^verbatim>\<open>while (time(NULL)-ref_time < 2) { if (rx_packet(fd) == want) { timed_out = 0; break; } }\<close>:
  the result is \<^verbatim>\<open>timed_out\<close> (or \<open>None\<close> when the clock readings end inside the loop),
  the clock readings left and the world after.
\<close>

fun wait_response :: "PacketType \<Rightarrow> int \<Rightarrow> int list \<Rightarrow> world \<Rightarrow> bool option \<times> int list \<times> world" where
  "wait_response want ref_time [] w = (None, [], w)"
| "wait_response want ref_time (t # clock) w =
     (if t - ref_time < 2 then
        (case rx_packet_fd w of (p, w') \<Rightarrow>
           if p = want then (Some False, clock, w')
           else wait_response want ref_time clock w')
      else (Some True, clock, w))"

text \<open>
  One iteration of the \<^verbatim>\<open>while(1)\<close> loop, on \<^verbatim>\<open>ref_time\<close> and the world, with the value
  that its call of \<^verbatim>\<open>time(NULL)\<close> returns.
\<close>

definition loop_body :: "int \<times> world \<Rightarrow> int \<Rightarrow> int \<times> world" where
  "loop_body s cur_time =
     (case s of (ref_time, w) \<Rightarrow>
        (case rx_packet_fd w of (p, w) \<Rightarrow>
           let w = (if p = CO2Level then w\<lparr>stdout := stdout w @ [co2_level (dec w)]\<rparr> else w)
           in if cur_time - ref_time > 10 then (ref_time + 10, request_co2_level w)
              else (ref_time, w)))"

text \<open>The loop over the clock readings of its iterations.\<close>

definition steady_state :: "int \<Rightarrow> int list \<Rightarrow> world \<Rightarrow> int \<times> world" where
  "steady_state ref_time clock w = foldl loop_body (ref_time, w) clock"

definition abc_off_message :: string where
  "abc_off_message =
     ''Error initialising sensor - did not receive response from 'ABC off' command\<newline>''"

definition set_range_message :: string where
  "set_range_message =
     ''Error initialising sensor - did not receive response from 'Set range' command\<newline>''"

datatype outcome = Exited int | Running

text \<open>
  \<^verbatim>\<open>main\<close> from line 153 on, the device being open and configured. \<open>Exited n\<close> is
  \<^verbatim>\<open>return n\<close>; \<open>Running\<close> is the program still in one of its loops when the clock
  readings end (the last loop has no exit).
\<close>

definition main :: "int list \<Rightarrow> world \<Rightarrow> outcome \<times> world" where
  "main clock w =
     (let w = abc_off w in
      case clock of
        [] \<Rightarrow> (Running, w)
      | ref_time # clock \<Rightarrow>
          (case wait_response ABCOff ref_time clock w of
             (None, clock, w) \<Rightarrow> (Running, w)
           | (Some True, clock, w) \<Rightarrow> (Exited 1, w\<lparr>stderr := stderr w @ [abc_off_message]\<rparr>)
           | (Some False, clock, w) \<Rightarrow>
               (let w = snd (set_range 10000 w) in
                case clock of
                  [] \<Rightarrow> (Running, w)
                | ref_time # clock \<Rightarrow>
                    (case wait_response SetRange ref_time clock w of
                       (None, clock, w) \<Rightarrow> (Running, w)
                     | (Some True, clock, w) \<Rightarrow>
                         (Exited 1, w\<lparr>stderr := stderr w @ [set_range_message]\<rparr>)
                     | (Some False, clock, w) \<Rightarrow>
                         (case clock of
                            [] \<Rightarrow> (Running, w)
                          | ref_time # clock \<Rightarrow>
                              (Running, snd (steady_state ref_time clock w)))))))"

subsection \<open>Descriptions used by the statements\<close>

text \<open>
  The deadline of a handshake step is missed: some clock reading is two seconds or more
  after \<open>ref_time\<close>, and none of the calls of the decoder made before it returned the
  awaited packet type.
\<close>

definition deadline_missed :: "PacketType \<Rightarrow> int \<Rightarrow> int list \<Rightarrow> world \<Rightarrow> bool" where
  "deadline_missed want ref_time clock w \<longleftrightarrow>
     (\<exists>n \<in> set [0 ..< length clock].
        2 \<le> clock ! n - ref_time \<and> (\<forall>i \<in> set [0 ..< n]. clock ! i - ref_time < 2)
        \<and> want \<notin> set (fst (pump n w)))"

text \<open>
  The awaited packet type is returned in time, by call \<open>n + 1\<close> of the decoder and by
  none before.
\<close>

definition acknowledged :: "PacketType \<Rightarrow> int \<Rightarrow> int list \<Rightarrow> world \<Rightarrow> nat \<Rightarrow> bool" where
  "acknowledged want ref_time clock w n \<longleftrightarrow>
     n < length clock \<and> (\<forall>i \<in> set [0 ..< Suc n]. clock ! i - ref_time < 2)
     \<and> want \<notin> set (fst (pump n w)) \<and> last (fst (pump (Suc n) w)) = want"

text \<open>
  The accumulated fields agree with the bytes \<open>f\<close> of the frame received so far.
\<close>

definition partial_frame :: "byte list \<Rightarrow> decoder \<Rightarrow> bool" where
  "partial_frame f d \<longleftrightarrow>
     length f \<le> 8 \<and> rxstate d = int (length f) + 1
     \<and> (1 \<le> length f \<longrightarrow> f ! 0 = 0xff)
     \<and> (2 \<le> length f \<longrightarrow> packet d = classify (f ! 1))
     \<and> (3 \<le> length f \<longrightarrow> byte3 d = f ! 2)
     \<and> (4 \<le> length f \<longrightarrow> packet d = CO2Level \<longrightarrow>
          co2_level d = 256 * uint (f ! 2) + uint (f ! 3))"

text \<open>From state 5 on, the level of a frame classified \<^verbatim>\<open>CO2Level\<close> is a 16-bit value.\<close>

definition level_ok :: "decoder \<Rightarrow> bool" where
  "level_ok d \<longleftrightarrow>
     (5 \<le> rxstate d \<longrightarrow> packet d = CO2Level \<longrightarrow> 0 \<le> co2_level d \<and> co2_level d \<le> 65535)"

text \<open>
  The decoder is fit to print from and every value printed so far is a 16-bit value.
\<close>

definition printed_ok :: "world \<Rightarrow> bool" where
  "printed_ok w \<longleftrightarrow> level_ok (dec w) \<and> (\<forall>v \<in> set (stdout w). 0 \<le> v \<and> v \<le> 65535)"

section \<open>The decoder on one frame\<close>

lemma rx_packet_state1:
  "rxstate d = 1 \<Longrightarrow> rx_packet (Some c) d =
     (None_packet, if c = 0xff then d\<lparr>rxstate := 2, checksum := 0xff\<rparr>
                   else d\<lparr>checksum := checksum d + c\<rparr>)"
  by (simp add: rx_packet_def)

lemma rx_packet_state2:
  "rxstate d = 2 \<Longrightarrow> rx_packet (Some c) d =
     (None_packet, d\<lparr>checksum := checksum d + c, packet := classify c, rxstate := 3\<rparr>)"
  by (simp add: rx_packet_def)

lemma rx_packet_state3:
  "rxstate d = 3 \<Longrightarrow> rx_packet (Some c) d =
     (None_packet, d\<lparr>checksum := checksum d + c, byte3 := c, rxstate := 4\<rparr>)"
  by (simp add: rx_packet_def)

lemma rx_packet_state4:
  "rxstate d = 4 \<Longrightarrow> rx_packet (Some c) d =
     (None_packet,
      d\<lparr>checksum := checksum d + c,
        co2_level := (if packet d = CO2Level then 256 * uint (byte3 d) + uint c
                      else co2_level d),
        rxstate := 5\<rparr>)"
  by (simp add: rx_packet_def)

lemma rx_packet_state5678:
  "rxstate d = 5 \<or> rxstate d = 6 \<or> rxstate d = 7 \<or> rxstate d = 8 \<Longrightarrow>
   rx_packet (Some c) d =
     (None_packet, d\<lparr>checksum := checksum d + c, rxstate := rxstate d + 1\<rparr>)"
  by (auto simp add: rx_packet_def)

lemma rx_packet_state9:
  "rxstate d = 9 \<Longrightarrow> rx_packet (Some c) d =
     (if checksum d + c = 0xff then packet d else None_packet,
      d\<lparr>checksum := checksum d + c, rxstate := 1\<rparr>)"
  by (simp add: rx_packet_def)

lemma feed_frame:
  assumes "rxstate d = 1"
  shows "feed [Some 0xff, Some b1, Some b2, Some b3, Some b4, Some b5, Some b6, Some b7, Some b8] d =
     ([None_packet, None_packet, None_packet, None_packet, None_packet, None_packet,
       None_packet, None_packet,
       if 0xff + b1 + b2 + b3 + b4 + b5 + b6 + b7 + b8 = (0xff :: byte)
       then classify b1 else None_packet],
      d\<lparr>rxstate := 1,
        checksum := 0xff + b1 + b2 + b3 + b4 + b5 + b6 + b7 + b8,
        byte3 := b2,
        packet := classify b1,
        co2_level := (if classify b1 = CO2Level then 256 * uint b2 + uint b3
                      else co2_level d)\<rparr>)"
  using assms
  by (simp add: rx_packet_state1 rx_packet_state2 rx_packet_state3 rx_packet_state4
      rx_packet_state5678 rx_packet_state9)

lemma frame_cases:
  "length f = 9 \<Longrightarrow> \<exists>b0 b1 b2 b3 b4 b5 b6 b7 b8. f = [b0, b1, b2, b3, b4, b5, b6, b7, b8]"
  by (auto simp: eval_nat_numeral length_Suc_conv)

lemma shift_or: "push_bit 8 (uint (a::byte)) OR uint (b::byte) = 256 * uint a + uint b"
proof -
  have "push_bit 8 (uint a) AND uint b = 0"
    by (auto simp: bit_eq_iff bit_simps dest: bit_imp_le_length)
  then have "push_bit 8 (uint a) + uint b = push_bit 8 (uint a) OR uint b"
    by (rule disjunctive_add_eq_or)
  then show ?thesis
    by (simp add: push_bit_eq_mult)
qed

lemma rx_packet_level_changes:
  "co2_level (snd (rx_packet rd d)) \<noteq> co2_level d \<Longrightarrow>
   rxstate d = 4 \<and> packet d = CO2Level \<and> rd \<noteq> None"
  by (auto simp: rx_packet_def Let_def split: option.splits if_splits)

section \<open>Scenario S2: a reading of 420 ppm\<close>

text \<open>
  Claim C6. Fed to a decoder in state 1, the nine bytes FF 86 01 A4 00 00 00 00 D5 make
  the ninth call return \<^verbatim>\<open>CO2Level\<close> and every earlier call return \<^verbatim>\<open>None\<close>; afterwards
  the measurement is 420.
\<close>

theorem reading_420:
  "rxstate d = 1 \<Longrightarrow>
   feed (map Some frame_420) d =
     ([None_packet, None_packet, None_packet, None_packet, None_packet, None_packet,
       None_packet, None_packet, CO2Level],
      d\<lparr>rxstate := 1, checksum := 0xff, byte3 := 1, packet := CO2Level, co2_level := 420\<rparr>)"
  by (simp add: frame_420_def feed_frame classify_def del: feed.simps)

theorem reading_420_witness:
  "rxstate decoder_init = 1 \<and>
   fst (feed (map Some frame_420) decoder_init) =
     [None_packet, None_packet, None_packet, None_packet, None_packet, None_packet,
       None_packet, None_packet, CO2Level] \<and>
   co2_level (snd (feed (map Some frame_420) decoder_init)) = 420"
  using reading_420 [of decoder_init] by (simp add: decoder_init_def)

section \<open>When the measurement is written\<close>

text \<open>
  Claim C1 says that the measurement changes only while a frame that passes the checksum
  and is classified \<^verbatim>\<open>CO2Level\<close> is processed, and that the corrupt frame
  FF 86 01 A4 00 00 00 00 00 leaves it as it was. The code writes it in state 4, before
  the checksum byte has arrived: after a valid reading of 500 ppm, the corrupt frame
  is rejected (every call returns \<^verbatim>\<open>None\<close>) and the measurement is 420.
\<close>

theorem corrupt_frame_overwrites:
  "co2_level (snd (feed (map Some [0xff, 0x86, 0x01, 0xF4, 0, 0, 0, 0, 0x85]) decoder_init)) = 500
   \<and> fst (feed (map Some [0xff, 0x86, 0x01, 0xF4, 0, 0, 0, 0, 0x85] @ map Some frame_corrupt)
            decoder_init) =
       [None_packet, None_packet, None_packet, None_packet, None_packet, None_packet,
        None_packet, None_packet, CO2Level,
        None_packet, None_packet, None_packet, None_packet, None_packet, None_packet,
        None_packet, None_packet, None_packet]
   \<and> co2_level (snd (feed (map Some [0xff, 0x86, 0x01, 0xF4, 0, 0, 0, 0, 0x85] @ map Some frame_corrupt)
                        decoder_init)) = 420"
  by (simp add: frame_corrupt_def decoder_init_def rx_packet_def classify_def)

text \<open>
  Claim C1, amended. The measurement changes only in a call that consumes a byte in
  state 4 while the latched packet type is \<^verbatim>\<open>CO2Level\<close>, that is, only while a frame
  whose command byte is 0x86 is processed, and before its checksum is checked. Fed to a
  decoder in state 1, the nine bytes FF 86 01 A4 00 00 00 00 00 make every call return
  \<^verbatim>\<open>None\<close> and leave the measurement equal to 420, whatever it was before.
\<close>

theorem measurement_written_before_validation:
  "(co2_level (snd (rx_packet rd d)) \<noteq> co2_level d \<longrightarrow>
      rxstate d = 4 \<and> packet d = CO2Level \<and> rd \<noteq> None)
   \<and> (rxstate d = 1 \<longrightarrow>
        co2_level (snd (feed (map Some [0xff, b1, b2, b3, b4, b5, b6, b7, b8]) d)) \<noteq> co2_level d \<longrightarrow>
        classify b1 = CO2Level \<and> b1 = 0x86)
   \<and> (rxstate d = 1 \<longrightarrow>
        feed (map Some frame_corrupt) d =
          ([None_packet, None_packet, None_packet, None_packet, None_packet, None_packet,
            None_packet, None_packet, None_packet],
           d\<lparr>rxstate := 1, checksum := 0x2A, byte3 := 1, packet := CO2Level,
             co2_level := 420\<rparr>))"
proof (intro conjI impI)
  assume "co2_level (snd (rx_packet rd d)) \<noteq> co2_level d"
  then have "rxstate d = 4 \<and> packet d = CO2Level \<and> rd \<noteq> None"
    by (rule rx_packet_level_changes)
  then show "rxstate d = 4" and "packet d = CO2Level" and "rd \<noteq> None" by simp_all
next
  assume s: "rxstate d = 1"
    and c: "co2_level (snd (feed (map Some [0xff, b1, b2, b3, b4, b5, b6, b7, b8]) d)) \<noteq> co2_level d"
  from s c show k: "classify b1 = CO2Level"
    by (simp add: feed_frame del: feed.simps split: if_splits)
  then show "b1 = 0x86"
    by (simp add: classify_def split: if_splits)
next
  assume "rxstate d = 1"
  then show "feed (map Some frame_corrupt) d =
          ([None_packet, None_packet, None_packet, None_packet, None_packet, None_packet,
            None_packet, None_packet, None_packet],
           d\<lparr>rxstate := 1, checksum := 0x2A, byte3 := 1, packet := CO2Level,
             co2_level := 420\<rparr>)"
    by (simp add: frame_corrupt_def feed_frame classify_def del: feed.simps)
qed

theorem measurement_written_before_validation_witness:
  "co2_level (snd (rx_packet (Some 0xA4) (decoder_init\<lparr>rxstate := 4, byte3 := 1, packet := CO2Level\<rparr>)))
     \<noteq> co2_level (decoder_init\<lparr>rxstate := 4, byte3 := 1, packet := CO2Level\<rparr>)
   \<and> rxstate decoder_init = 1
   \<and> co2_level (snd (feed (map Some [0xff, 0x86, 0, 7, 0, 0, 0, 0, 0x73]) decoder_init))
       \<noteq> co2_level decoder_init
   \<and> fst (feed (map Some frame_corrupt) decoder_init) =
       [None_packet, None_packet, None_packet, None_packet, None_packet, None_packet,
        None_packet, None_packet, None_packet]
   \<and> co2_level (snd (feed (map Some frame_corrupt) decoder_init)) = 420"
  using measurement_written_before_validation
    [of "Some 0xA4" "decoder_init\<lparr>rxstate := 4, byte3 := 1, packet := CO2Level\<rparr>"]
    measurement_written_before_validation [of None decoder_init "0x86" 0 7 0 0 0 0 "0x73"]
  by (simp add: decoder_init_def rx_packet_state4 feed_frame classify_def del: feed.simps)

section \<open>Which bytes are decoded\<close>

text \<open>
  Claim C2 takes the packet kind from byte 2 of the frame and the measurement from
  bytes 3 and 4, counting from 0 at the sentinel. On the frame of scenario S2 the decoder
  returns \<^verbatim>\<open>CO2Level\<close> and the measurement 420, whereas byte 2 is 0x01, which classifies
  as \<^verbatim>\<open>Other\<close>, and bytes 3 and 4 give 41984.
\<close>

theorem kind_from_byte2_fails:
  "fst (feed (map Some frame_420) decoder_init) ! 8 = CO2Level
   \<and> classify (frame_420 ! 2) = Other
   \<and> co2_level (snd (feed (map Some frame_420) decoder_init)) = 420
   \<and> push_bit 8 (uint (frame_420 ! 3)) OR uint (frame_420 ! 4) = 41984"
  by (simp add: frame_420_def feed_frame classify_def decoder_init_def shift_or del: feed.simps)

text \<open>
  Claim C2, amended. For every nine bytes that start with the sentinel and are fed to a
  decoder in state 1, the packet kind is derived from byte 1 of the frame
  (0x86 gives \<^verbatim>\<open>CO2Level\<close>, 0x79 \<^verbatim>\<open>ABCOff\<close>, 0x99 \<^verbatim>\<open>SetRange\<close>, any other code \<^verbatim>\<open>Other\<close>)
  and is what the ninth call returns when the checksum passes; the measurement of a
  \<^verbatim>\<open>CO2Level\<close> frame is \<open>(byte2 << 8) | byte3\<close>, and another frame leaves the measurement
  as it was. Byte indices count from 0 at the sentinel.
\<close>

theorem kind_from_byte1:
  assumes "length f = 9" and "f ! 0 = 0xff" and "rxstate d = 1"
    and "feed (map Some f) d = (ps, d')"
  shows "packet d' = classify (f ! 1)
    \<and> classify (f ! 1) =
        (if f ! 1 = 0x86 then CO2Level else if f ! 1 = 0x79 then ABCOff
         else if f ! 1 = 0x99 then SetRange else Other)
    \<and> ps ! 8 = (if sum_list f = 0xff then classify (f ! 1) else None_packet)
    \<and> co2_level d' =
        (if f ! 1 = 0x86 then push_bit 8 (uint (f ! 2)) OR uint (f ! 3) else co2_level d)"
proof -
  from assms(1) obtain b0 b1 b2 b3 b4 b5 b6 b7 b8
    where f: "f = [b0, b1, b2, b3, b4, b5, b6, b7, b8]"
    using frame_cases by blast
  with assms(2) have b0: "b0 = 0xff" by simp
  have r: "feed (map Some f) d = 
     ([None_packet, None_packet, None_packet, None_packet, None_packet, None_packet,
       None_packet, None_packet,
       if 0xff + b1 + b2 + b3 + b4 + b5 + b6 + b7 + b8 = (0xff :: byte)
       then classify b1 else None_packet],
      d\<lparr>rxstate := 1,
        checksum := 0xff + b1 + b2 + b3 + b4 + b5 + b6 + b7 + b8,
        byte3 := b2,
        packet := classify b1,
        co2_level := (if classify b1 = CO2Level then 256 * uint b2 + uint b3
                      else co2_level d)\<rparr>)"
    unfolding f b0 using feed_frame [OF assms(3)] by simp
  have k: "classify b1 = CO2Level \<longleftrightarrow> b1 = 0x86"
    by (simp add: classify_def)
  from r assms(4) show ?thesis
    by (auto simp: f b0 k shift_or classify_def add.assoc)
qed

theorem kind_from_byte1_witness:
  "length frame_420 = 9 \<and> frame_420 ! 0 = 0xff \<and> rxstate decoder_init = 1
   \<and> packet (snd (feed (map Some frame_420) decoder_init)) = CO2Level
   \<and> fst (feed (map Some frame_420) decoder_init) ! 8 = CO2Level
   \<and> co2_level (snd (feed (map Some frame_420) decoder_init)) = 420"
  using kind_from_byte1 [of frame_420 decoder_init
      "fst (feed (map Some frame_420) decoder_init)" "snd (feed (map Some frame_420) decoder_init)"]
  by (simp add: frame_420_def decoder_init_def classify_def)

section \<open>The send operations\<close>

lemma set_range_2000:
  "set_range 2000 w = (0, w\<lparr>link_tx := link_tx w @ [[0xff, 0x01, 0x99, 0x07, 0xD0, 0, 0, 0, 0x8F]]\<rparr>)"
  by (simp add: set_range_def write_fd_def signed_divide_int_def signed_modulo_int_def)

lemma set_range_5000:
  "set_range 5000 w = (0, w\<lparr>link_tx := link_tx w @ [[0xff, 0x01, 0x99, 0x13, 0x88, 0, 0, 0, 0xCB]]\<rparr>)"
  by (simp add: set_range_def write_fd_def signed_divide_int_def signed_modulo_int_def)

lemma set_range_10000:
  "set_range 10000 w = (0, w\<lparr>link_tx := link_tx w @ [[0xff, 0x01, 0x99, 0x27, 0x10, 0, 0, 0, 0x2F]]\<rparr>)"
  by (simp add: set_range_def write_fd_def signed_divide_int_def signed_modulo_int_def)

lemma set_range_invalid:
  "r \<noteq> 2000 \<Longrightarrow> r \<noteq> 5000 \<Longrightarrow> r \<noteq> 10000 \<Longrightarrow> set_range r w = (- 1, w)"
  by (simp add: set_range_def)

text \<open>
  Claim C4. \<^verbatim>\<open>set_range(r)\<close> with \<open>r\<close> outside 2000, 5000 and 10000 fails (it returns
  \<open>-1\<close>, the source's report of an invalid range) and writes nothing to the link; with
  \<open>r\<close> one of the three it succeeds and writes, in one write, exactly the nine bytes
  FF 01 99 HH LL 00 00 00 CK, where \<open>HH = r >> 8\<close>, \<open>LL = r & 0xFF\<close> and \<open>CK\<close> is the
  negation modulo 256 of the sum of bytes 1 to 7.
\<close>

theorem set_range_frame:
  "(r \<notin> {2000, 5000, 10000} \<longrightarrow> set_range r w = (- 1, w))
   \<and> (r \<in> {2000, 5000, 10000} \<longrightarrow>
        (\<exists>hh ll ck.
           set_range r w = (0, w\<lparr>link_tx := link_tx w @ [[0xff, 0x01, 0x99, hh, ll, 0, 0, 0, ck]]\<rparr>)
           \<and> uint hh = drop_bit 8 r \<and> uint ll = r AND 0xff
           \<and> ck = - (0x01 + 0x99 + hh + ll + 0 + 0 + 0)
           \<and> uint ck = (- (0x01 + 0x99 + uint hh + uint ll + 0 + 0 + 0)) mod 256))"
proof (intro conjI impI)
  assume "r \<notin> {2000, 5000, 10000}"
  then show "set_range r w = (- 1, w)"
    by (simp add: set_range_invalid)
next
  assume "r \<in> {2000, 5000, 10000}"
  then consider "r = 2000" | "r = 5000" | "r = 10000" by auto
  then show "\<exists>hh ll ck.
           set_range r w = (0, w\<lparr>link_tx := link_tx w @ [[0xff, 0x01, 0x99, hh, ll, 0, 0, 0, ck]]\<rparr>)
           \<and> uint hh = drop_bit 8 r \<and> uint ll = r AND 0xff
           \<and> ck = - (0x01 + 0x99 + hh + ll + 0 + 0 + 0)
           \<and> uint ck = (- (0x01 + 0x99 + uint hh + uint ll + 0 + 0 + 0)) mod 256"
  proof cases
    case 1
    show ?thesis unfolding 1 set_range_2000
      by (intro exI [of _ "0x07"] exI [of _ "0xD0"] exI [of _ "0x8F"]) (simp add: drop_bit_eq_div)
  next
    case 2
    show ?thesis unfolding 2 set_range_5000
      by (intro exI [of _ "0x13"] exI [of _ "0x88"] exI [of _ "0xCB"]) (simp add: drop_bit_eq_div)
  next
    case 3
    show ?thesis unfolding 3 set_range_10000
      by (intro exI [of _ "0x27"] exI [of _ "0x10"] exI [of _ "0x2F"]) (simp add: drop_bit_eq_div)
  qed
qed

theorem set_range_frame_witness:
  "(3000::int) \<notin> {2000, 5000, 10000} \<and> set_range 3000 (world_init []) = (- 1, world_init [])
   \<and> (10000::int) \<in> {2000, 5000, 10000}
   \<and> fst (set_range 10000 (world_init [])) = 0
   \<and> length (link_tx (snd (set_range 10000 (world_init [])))) = 1"
  using set_range_frame [of 3000 "world_init []"] set_range_frame [of 10000 "world_init []"]
  by (auto simp: world_init_def)

text \<open>
  Claim C5. Every frame that \<^verbatim>\<open>request_co2_level\<close>, \<^verbatim>\<open>abc_off\<close> or \<^verbatim>\<open>set_range(r)\<close>
  with \<open>r\<close> one of 2000, 5000 and 10000 writes has nine bytes whose sum modulo 256 is
  0xFF; byte 0 is 0xFF and the last byte is the negation modulo 256 of the sum of
  bytes 1 to 7, so the frame meets the validity condition of the receive side, and a
  decoder in state 1 that is fed the frame returns a packet type on the ninth call.
\<close>

theorem outbound_checksum:
  assumes "link_tx (request_co2_level w) = link_tx w @ [f]
     \<or> link_tx (abc_off w) = link_tx w @ [f]
     \<or> (r \<in> {2000, 5000, 10000} \<and> link_tx (snd (set_range r w)) = link_tx w @ [f])"
  shows "length f = 9 \<and> sum_list (map uint f) mod 256 = 0xff
    \<and> f ! 0 = 0xff \<and> f ! 8 = - (f ! 1 + f ! 2 + f ! 3 + f ! 4 + f ! 5 + f ! 6 + f ! 7)
    \<and> valid_frame f
    \<and> (rxstate d = 1 \<longrightarrow> fst (feed (map Some f) d) ! 8 \<noteq> None_packet)"
proof -
  from assms have "f = request_frame \<or> f = abc_off_frame
     \<or> f = [0xff, 0x01, 0x99, 0x07, 0xD0, 0, 0, 0, 0x8F]
     \<or> f = [0xff, 0x01, 0x99, 0x13, 0x88, 0, 0, 0, 0xCB]
     \<or> f = [0xff, 0x01, 0x99, 0x27, 0x10, 0, 0, 0, 0x2F]"
    by (auto simp: request_co2_level_def abc_off_def write_fd_def set_range_2000
        set_range_5000 set_range_10000)
  then show ?thesis
    by (elim disjE)
      (simp_all add: request_frame_def abc_off_frame_def valid_frame_def feed_frame classify_def
        del: feed.simps)
qed

theorem outbound_checksum_witness:
  "link_tx (request_co2_level (world_init [])) = link_tx (world_init []) @ [request_frame]
   \<and> (10000::int) \<in> {2000, 5000, 10000}
   \<and> link_tx (snd (set_range 10000 (world_init []))) =
       link_tx (world_init []) @ [[0xff, 0x01, 0x99, 0x27, 0x10, 0, 0, 0, 0x2F]]
   \<and> sum_list (map uint request_frame) mod 256 = 0xff
   \<and> sum_list (map uint [0xff, 0x01, 0x99, 0x27, 0x10, 0, 0, 0, 0x2F :: byte]) mod 256 = 0xff
   \<and> rxstate decoder_init = 1
   \<and> fst (feed (map Some request_frame) decoder_init) ! 8 \<noteq> None_packet"
  using outbound_checksum [of "world_init []" request_frame 0 decoder_init]
    outbound_checksum [of "world_init []" "[0xff, 0x01, 0x99, 0x27, 0x10, 0, 0, 0, 0x2F]" 10000 decoder_init]
  by (simp add: request_co2_level_def write_fd_def set_range_10000 decoder_init_def)

section \<open>The state variable\<close>

lemma rx_packet_range:
  "1 \<le> rxstate d \<and> rxstate d \<le> 9 \<Longrightarrow>
   1 \<le> rxstate (snd (rx_packet rd d)) \<and> rxstate (snd (rx_packet rd d)) \<le> 9"
  by (auto simp: rx_packet_def Let_def split: option.splits)

lemma feed_Cons:
  "feed (r # rs) d =
     (fst (rx_packet r d) # fst (feed rs (snd (rx_packet r d))),
      snd (feed rs (snd (rx_packet r d))))"
  by (simp split: prod.splits)

lemma feed_range:
  "1 \<le> rxstate d \<and> rxstate d \<le> 9 \<Longrightarrow>
   1 \<le> rxstate (snd (feed rs d)) \<and> rxstate (snd (feed rs d)) \<le> 9"
proof (induction rs arbitrary: d)
  case Nil
  then show ?case by simp
next
  case (Cons r rs)
  from Cons.prems have "1 \<le> rxstate (snd (rx_packet r d)) \<and> rxstate (snd (rx_packet r d)) \<le> 9"
    by (rule rx_packet_range)
  then have "1 \<le> rxstate (snd (feed rs (snd (rx_packet r d))))
     \<and> rxstate (snd (feed rs (snd (rx_packet r d)))) \<le> 9"
    by (rule Cons.IH)
  then show ?case
    by (simp add: feed_Cons del: feed.simps)
qed

lemma rx_packet_returns:
  "fst (rx_packet rd d) \<noteq> None_packet \<Longrightarrow>
   \<exists>c. rd = Some c \<and> rxstate d = 9 \<and> checksum d + c = 0xff \<and> fst (rx_packet rd d) = packet d"
  by (auto simp: rx_packet_def Let_def split: option.splits if_splits)

text \<open>
  Claim C9. Whatever is read, the state variable stays within 1 to 9 (from the initial
  state, and in every call that starts within 1 to 9); a call returns something other
  than \<^verbatim>\<open>None\<close> only when it consumes a byte in state 9 and the running checksum,
  this byte included, is 0xFF; and a byte consumed in state 9 sets the state to 1
  whether the checksum passes or not.
\<close>

theorem rxstate_in_range:
  "(1 \<le> rxstate (snd (feed rs decoder_init)) \<and> rxstate (snd (feed rs decoder_init)) \<le> 9)
   \<and> (1 \<le> rxstate d \<and> rxstate d \<le> 9 \<longrightarrow>
        1 \<le> rxstate (snd (rx_packet rd d)) \<and> rxstate (snd (rx_packet rd d)) \<le> 9)
   \<and> (fst (rx_packet rd d) \<noteq> None_packet \<longrightarrow>
        (\<exists>c. rd = Some c \<and> rxstate d = 9 \<and> checksum d + c = 0xff))
   \<and> (rxstate d = 9 \<longrightarrow> rxstate (snd (rx_packet (Some c) d)) = 1)"
proof (intro conjI impI)
  have "1 \<le> rxstate decoder_init \<and> rxstate decoder_init \<le> 9"
    by (simp add: decoder_init_def)
  then have "1 \<le> rxstate (snd (feed rs decoder_init)) \<and> rxstate (snd (feed rs decoder_init)) \<le> 9"
    by (rule feed_range)
  then show "1 \<le> rxstate (snd (feed rs decoder_init))"
    and "rxstate (snd (feed rs decoder_init)) \<le> 9" by simp_all
next
  assume "1 \<le> rxstate d \<and> rxstate d \<le> 9"
  then have "1 \<le> rxstate (snd (rx_packet rd d)) \<and> rxstate (snd (rx_packet rd d)) \<le> 9"
    by (rule rx_packet_range)
  then show "1 \<le> rxstate (snd (rx_packet rd d))" and "rxstate (snd (rx_packet rd d)) \<le> 9"
    by simp_all
next
  assume "fst (rx_packet rd d) \<noteq> None_packet"
  then show "\<exists>c. rd = Some c \<and> rxstate d = 9 \<and> checksum d + c = 0xff"
    using rx_packet_returns by blast
next
  assume "rxstate d = 9"
  then show "rxstate (snd (rx_packet (Some c) d)) = 1"
    by (simp add: rx_packet_state9)
qed

theorem rxstate_in_range_witness:
  "rxstate (snd (feed (map Some [0xff, 0x86, 0xff, 0xff]) decoder_init)) = 5
   \<and> fst (rx_packet (Some 0x7A) \<lparr>rxstate = 9, checksum = 0x85, byte3 = 0, packet = Other, co2_level = - 1\<rparr>)
       \<noteq> None_packet
   \<and> rxstate (snd (rx_packet (Some 0) \<lparr>rxstate = 9, checksum = 0x85, byte3 = 0, packet = Other, co2_level = - 1\<rparr>))
       = 1"
  using rxstate_in_range [of "map Some [0xff, 0x86, 0xff, 0xff]"
      "\<lparr>rxstate = 9, checksum = 0x85, byte3 = 0, packet = Other, co2_level = - 1\<rparr>" "Some 0x7A" 0]
  by (simp add: decoder_init_def rx_packet_def classify_def)

section \<open>Garbage before a frame\<close>

lemma feed_append:
  "feed (xs @ ys) d =
     (fst (feed xs d) @ fst (feed ys (snd (feed xs d))), snd (feed ys (snd (feed xs d))))"
  by (induction xs arbitrary: d) (auto split: prod.splits)

lemma feed_garbage:
  "0xff \<notin> set G \<Longrightarrow> rxstate d = 1 \<Longrightarrow>
   feed (map Some G) d = (replicate (length G) None_packet, d\<lparr>checksum := checksum d + sum_list G\<rparr>)"
proof (induction G arbitrary: d)
  case Nil
  then show ?case by simp
next
  case (Cons c G)
  from Cons.prems have c: "c \<noteq> 0xff" and G: "0xff \<notin> set G" by auto
  from Cons.prems c have step: "rx_packet (Some c) d = (None_packet, d\<lparr>checksum := checksum d + c\<rparr>)"
    by (simp add: rx_packet_state1)
  have "rxstate (d\<lparr>checksum := checksum d + c\<rparr>) = 1"
    using Cons.prems by simp
  from Cons.IH [OF G this] step show ?case
    by (simp add: add.assoc)
qed

text \<open>
  Claim C7. Let \<open>G\<close> be bytes none of which is 0xFF and \<open>F\<close> a valid frame. Fed to a
  decoder in state 1, \<open>G\<close> followed by \<open>F\<close> gives exactly one return other than
  \<^verbatim>\<open>None\<close>; the returns after \<open>G\<close> and the final variables are those of feeding \<open>F\<close>
  alone; and after each byte of \<open>G\<close> the decoder is in state 1 with nothing latched:
  its variables are the initial ones but for the checksum accumulator, which the
  sentinel resets.
\<close>

theorem prefix_garbage:
  assumes "0xff \<notin> set G" and "valid_frame F" and "rxstate d = 1"
  shows "feed (map Some (G @ F)) d =
       (replicate (length G) None_packet @ fst (feed (map Some F) d), snd (feed (map Some F) d))
    \<and> length (filter (\<lambda>p. p \<noteq> None_packet) (fst (feed (map Some (G @ F)) d))) = 1
    \<and> (\<forall>n \<le> length G.
         snd (feed (map Some (take n G)) d) = d\<lparr>checksum := checksum d + sum_list (take n G)\<rparr>)"
proof -
  from assms(2) have "length F = 9" by (simp add: valid_frame_def)
  then obtain b0 b1 b2 b3 b4 b5 b6 b7 b8
    where F0: "F = [b0, b1, b2, b3, b4, b5, b6, b7, b8]"
    using frame_cases by blast
  with assms(2) have b0: "b0 = 0xff" by (simp add: valid_frame_def)
  from assms(2) have ck: "0xff + b1 + b2 + b3 + b4 + b5 + b6 + b7 + b8 = (0xff :: byte)"
    by (simp add: valid_frame_def F0 b0 add.assoc)
  have F: "map Some F = [Some 0xff, Some b1, Some b2, Some b3, Some b4, Some b5, Some b6,
      Some b7, Some b8]"
    by (simp add: F0 b0)
  let ?dG = "d\<lparr>checksum := checksum d + sum_list G\<rparr>"
  have G: "feed (map Some G) d = (replicate (length G) None_packet, ?dG)"
    using assms(1,3) by (rule feed_garbage)
  have s: "rxstate ?dG = 1"
    using assms(3) by simp
  have same: "snd (feed (map Some F) ?dG) = snd (feed (map Some F) d)"
    and ret: "fst (feed (map Some F) ?dG) = fst (feed (map Some F) d)"
    and one: "length (filter (\<lambda>p. p \<noteq> None_packet) (fst (feed (map Some F) d))) = 1"
    unfolding F feed_frame [OF s] feed_frame [OF assms(3)]
    by (simp_all add: ck classify_def)
  have whole: "feed (map Some (G @ F)) d =
       (replicate (length G) None_packet @ fst (feed (map Some F) d), snd (feed (map Some F) d))"
    by (simp add: feed_append G same ret del: feed.simps)
  have prefixes: "\<forall>n \<le> length G.
         snd (feed (map Some (take n G)) d) = d\<lparr>checksum := checksum d + sum_list (take n G)\<rparr>"
  proof (intro allI impI)
    fix n
    have "0xff \<notin> set (take n G)"
      using assms(1) by (auto dest: in_set_takeD)
    then show "snd (feed (map Some (take n G)) d) = d\<lparr>checksum := checksum d + sum_list (take n G)\<rparr>"
      using assms(3) by (simp add: feed_garbage)
  qed
  from whole one prefixes show ?thesis
    by simp
qed

theorem prefix_garbage_witness:
  "0xff \<notin> set [0x12, 0x00, 0x86 :: byte] \<and> valid_frame frame_420 \<and> rxstate decoder_init = 1
   \<and> feed (map Some ([0x12, 0x00, 0x86] @ frame_420)) decoder_init =
       ([None_packet, None_packet, None_packet,
         None_packet, None_packet, None_packet, None_packet, None_packet, None_packet,
         None_packet, None_packet, CO2Level],
        snd (feed (map Some frame_420) decoder_init))
   \<and> snd (feed (map Some (take 2 [0x12, 0x00, 0x86])) decoder_init) = decoder_init\<lparr>checksum := 0x12\<rparr>"
  using prefix_garbage [of "[0x12, 0x00, 0x86]" frame_420 decoder_init]
  by (simp add: valid_frame_def frame_420_def decoder_init_def rx_packet_def classify_def)

section \<open>The cadence of the requests\<close>

lemma rx_packet_fd_outputs:
  "link_tx (snd (rx_packet_fd w)) = link_tx w"
  "stdout (snd (rx_packet_fd w)) = stdout w"
  "stderr (snd (rx_packet_fd w)) = stderr w"
  by (simp_all add: rx_packet_fd_def read_fd_def split: prod.splits list.splits)

lemma loop_body_request:
  "loop_body (ref_time, w) t = (ref', w') \<Longrightarrow>
   (if t - ref_time > 10 then ref' = ref_time + 10 \<and> link_tx w' = link_tx w @ [request_frame]
    else ref' = ref_time \<and> link_tx w' = link_tx w)"
  using rx_packet_fd_outputs(1) [of w]
  by (auto simp: loop_body_def Let_def request_co2_level_def write_fd_def split: prod.splits if_splits)






section \<open>The startup handshake\<close>

lemma wait_response_outputs:
  "wait_response want ref_time clock w = (r, clock', w') \<Longrightarrow>
   link_tx w' = link_tx w \<and> stdout w' = stdout w \<and> stderr w' = stderr w"
proof (induction clock arbitrary: w)
  case Nil
  then show ?case by simp
next
  case (Cons t clock)
  obtain p w1 where p: "rx_packet_fd w = (p, w1)"
    by (cases "rx_packet_fd w")
  then have out: "link_tx w1 = link_tx w \<and> stdout w1 = stdout w \<and> stderr w1 = stderr w"
    using rx_packet_fd_outputs [of w] by simp
  show ?case
  proof (cases "t - ref_time < 2 \<and> p \<noteq> want")
    case True
    with Cons.prems p have "wait_response want ref_time clock w1 = (r, clock', w')"
      by simp
    from Cons.IH [OF this] out show ?thesis by simp
  next
    case False
    with Cons.prems p out show ?thesis
      by (auto split: if_splits)
  qed
qed

lemma deadline_missed_iff:
  "deadline_missed want ref_time clock w \<longleftrightarrow>
     (\<exists>n < length clock. 2 \<le> clock ! n - ref_time \<and> (\<forall>i < n. clock ! i - ref_time < 2)
        \<and> want \<notin> set (fst (pump n w)))"
  by (auto simp: deadline_missed_def)

lemma acknowledged_iff:
  "acknowledged want ref_time clock w n \<longleftrightarrow>
     n < length clock \<and> (\<forall>i \<le> n. clock ! i - ref_time < 2)
     \<and> want \<notin> set (fst (pump n w)) \<and> last (fst (pump (Suc n) w)) = want"
  by (auto simp: acknowledged_def less_Suc_eq_le)

lemma wait_response_missed:
  "deadline_missed want ref_time clock w \<Longrightarrow>
   \<exists>clock' w'. wait_response want ref_time clock w = (Some True, clock', w')"
proof (induction clock arbitrary: w)
  case Nil
  then show ?case by (simp add: deadline_missed_iff)
next
  case (Cons t clock)
  from Cons.prems obtain n where n: "n < length (t # clock)" "2 \<le> (t # clock) ! n - ref_time"
      "\<forall>i < n. (t # clock) ! i - ref_time < 2" "want \<notin> set (fst (pump n w))"
    unfolding deadline_missed_iff by blast
  show ?case
  proof (cases n)
    case 0
    with n(2) show ?thesis by simp
  next
    case (Suc m)
    obtain p w1 where p: "rx_packet_fd w = (p, w1)"
      by (cases "rx_packet_fd w")
    from n(3) Suc have early: "t - ref_time < 2" by auto
    from n(4) Suc p have ne: "p \<noteq> want" and rest: "want \<notin> set (fst (pump m w1))"
      by (auto split: prod.splits)
    from n(1,2) Suc have "m < length clock" "2 \<le> clock ! m - ref_time" by simp_all
    moreover from n(3) Suc have "\<forall>i < m. clock ! i - ref_time < 2" by auto
    ultimately have "deadline_missed want ref_time clock w1"
      using rest unfolding deadline_missed_iff by blast
    from Cons.IH [OF this] early ne p show ?thesis by simp
  qed
qed

lemma wait_response_acknowledged:
  "acknowledged want ref_time clock w n \<Longrightarrow>
   wait_response want ref_time clock w = (Some False, drop (Suc n) clock, snd (pump (Suc n) w))"
proof (induction clock arbitrary: w n)
  case Nil
  then show ?case by (simp add: acknowledged_iff)
next
  case (Cons t clock)
  obtain p w1 where p: "rx_packet_fd w = (p, w1)"
    by (cases "rx_packet_fd w")
  from Cons.prems have "\<forall>i \<le> n. (t # clock) ! i - ref_time < 2"
    unfolding acknowledged_iff by blast
  then have "(t # clock) ! 0 - ref_time < 2" by blast
  then have early: "t - ref_time < 2" by simp
  show ?case
  proof (cases n)
    case 0
    with Cons.prems p have "p = want"
      by (simp add: acknowledged_iff)
    with early p 0 show ?thesis by simp
  next
    case (Suc m)
    from Cons.prems Suc p have ne: "p \<noteq> want" and rest: "want \<notin> set (fst (pump m w1))"
      and lst: "last (fst (pump (Suc m) w1)) = want"
      unfolding acknowledged_iff by (auto split: prod.splits)
    from Cons.prems Suc have "m < length clock" and "\<forall>i \<le> m. clock ! i - ref_time < 2"
      unfolding acknowledged_iff by auto
    with rest lst have "acknowledged want ref_time clock w1 m"
      unfolding acknowledged_iff by blast
    from Cons.IH [OF this] early ne p Suc show ?thesis
      by (simp split: prod.splits)
  qed
qed

lemma rx_packet_fd_silent:
  assumes "\<forall>r \<in> set (link_rx w). r = None"
  shows "fst (rx_packet_fd w) = None_packet"
    and "\<forall>r \<in> set (link_rx (snd (rx_packet_fd w))). r = None"
  using assms
  by (auto simp: rx_packet_fd_def read_fd_def rx_packet_def split: list.splits prod.splits)

lemma wait_response_silent:
  "\<forall>r \<in> set (link_rx w). r = None \<Longrightarrow> want \<noteq> None_packet \<Longrightarrow>
   \<exists>t \<in> set clock. 2 \<le> t - ref_time \<Longrightarrow>
   \<exists>clock' w'. wait_response want ref_time clock w = (Some True, clock', w')"
proof (induction clock arbitrary: w)
  case Nil
  then show ?case by simp
next
  case (Cons t clock)
  show ?case
  proof (cases "t - ref_time < 2")
    case False
    then show ?thesis by simp
  next
    case True
    obtain p w1 where p: "rx_packet_fd w = (p, w1)"
      by (cases "rx_packet_fd w")
    with rx_packet_fd_silent [OF Cons.prems(1)]
    have none: "p = None_packet" and silent: "\<forall>r \<in> set (link_rx w1). r = None"
      by simp_all
    from Cons.prems(3) True have "\<exists>t \<in> set clock. 2 \<le> t - ref_time" by auto
    from Cons.IH [OF silent Cons.prems(2) this] True p none Cons.prems(2)
    show ?thesis by auto
  qed
qed

lemma main_abc_timeout:
  "wait_response ABCOff t0 ts (abc_off w) = (Some True, clock', w') \<Longrightarrow>
   main (t0 # ts) w = (Exited 1, w'\<lparr>stderr := stderr w' @ [abc_off_message]\<rparr>)"
  by (simp add: main_def Let_def)

lemma main_range_timeout:
  "wait_response ABCOff t0 ts (abc_off w) = (Some False, t1 # ts1, w1) \<Longrightarrow>
   wait_response SetRange t1 ts1 (snd (set_range 10000 w1)) = (Some True, clock', w') \<Longrightarrow>
   main (t0 # ts) w = (Exited 1, w'\<lparr>stderr := stderr w' @ [set_range_message]\<rparr>)"
  by (simp add: main_def Let_def)

lemma steady_state_tx:
  "\<exists>xs. link_tx (snd (steady_state r clock w)) = link_tx w @ xs"
proof (induction clock rule: rev_induct)
  case Nil
  then show ?case by (simp add: steady_state_def)
next
  case (snoc t clock)
  then obtain xs where xs: "link_tx (snd (steady_state r clock w)) = link_tx w @ xs"
    by blast
  obtain r1 w1 where s1: "steady_state r clock w = (r1, w1)"
    by (cases "steady_state r clock w")
  obtain r2 w2 where s2: "loop_body (r1, w1) t = (r2, w2)"
    by (cases "loop_body (r1, w1) t")
  from loop_body_request [OF s2] have "\<exists>ys. link_tx w2 = link_tx w1 @ ys"
    by (simp split: if_splits)
  with xs s1 s2 show ?case
    by (auto simp: steady_state_def)
qed

lemma main_sends_set_range:
  assumes wr: "wait_response ABCOff t0 ts (abc_off w) = (Some False, c1, w1)"
  shows "\<exists>xs. link_tx (snd (main (t0 # ts) w)) =
           link_tx w @ abc_off_frame # [0xff, 0x01, 0x99, 0x27, 0x10, 0, 0, 0, 0x2F] # xs"
proof -
  from wait_response_outputs [OF wr] have tx1: "link_tx w1 = link_tx w @ [abc_off_frame]"
    by (simp add: abc_off_def write_fd_def)
  have tx2: "link_tx (snd (set_range 10000 w1)) =
      link_tx w @ abc_off_frame # [[0xff, 0x01, 0x99, 0x27, 0x10, 0, 0, 0, 0x2F]]"
    by (simp add: set_range_10000 tx1)
  show ?thesis
  proof (cases c1)
    case Nil
    with wr tx2 show ?thesis by (simp add: main_def Let_def)
  next
    case (Cons t1 ts1)
    obtain r' c2 w2 where wr2:
      "wait_response SetRange t1 ts1 (snd (set_range 10000 w1)) = (r', c2, w2)"
      by (cases "wait_response SetRange t1 ts1 (snd (set_range 10000 w1))")
    from wait_response_outputs [OF wr2] tx2
    have tx3: "link_tx w2 =
        link_tx w @ abc_off_frame # [[0xff, 0x01, 0x99, 0x27, 0x10, 0, 0, 0, 0x2F]]"
      by simp
    show ?thesis
    proof (cases r')
      case None
      with tx3 wr wr2 Cons show ?thesis
        by (simp add: main_def Let_def)
    next
      case (Some timed_out)
      show ?thesis
      proof (cases timed_out)
        case True
        with Some tx3 wr wr2 Cons show ?thesis
          by (simp add: main_def Let_def)
      next
        case False
        show ?thesis
        proof (cases c2)
          case Nil
          with False Some tx3 wr wr2 Cons show ?thesis
            by (simp add: main_def Let_def)
        next
          case steady: (Cons t2 ts2)
          from steady_state_tx [of t2 ts2 w2] obtain xs where
            "link_tx (snd (steady_state t2 ts2 w2)) = link_tx w2 @ xs"
            by blast
          with steady False Some tx3 wr wr2 Cons show ?thesis
            by (simp add: main_def Let_def)
        qed
      qed
    qed
  qed
qed

lemma main_sends_abc_off_first:
  "\<exists>xs. link_tx (snd (main clock w)) = link_tx w @ abc_off_frame # xs"
proof (cases clock)
  case Nil
  then show ?thesis by (simp add: main_def Let_def abc_off_def write_fd_def)
next
  case (Cons t0 ts)
  obtain r c1 w1 where wr: "wait_response ABCOff t0 ts (abc_off w) = (r, c1, w1)"
    by (cases "wait_response ABCOff t0 ts (abc_off w)")
  from wait_response_outputs [OF wr] have tx1: "link_tx w1 = link_tx w @ [abc_off_frame]"
    by (simp add: abc_off_def write_fd_def)
  show ?thesis
  proof (cases r)
    case None
    with wr tx1 Cons show ?thesis by (simp add: main_def Let_def)
  next
    case (Some timed_out)
    show ?thesis
    proof (cases timed_out)
      case True
      with Some wr tx1 Cons show ?thesis by (simp add: main_def Let_def)
    next
      case False
      with Some wr have "wait_response ABCOff t0 ts (abc_off w) = (Some False, c1, w1)"
        by simp
      from main_sends_set_range [OF this] Cons show ?thesis
        by auto
    qed
  qed
qed

text \<open>
  Claim C8. \<^verbatim>\<open>main\<close> first sends \<^verbatim>\<open>abc_off\<close> and calls the decoder until it returns
  \<^verbatim>\<open>ABCOff\<close>, then sends \<^verbatim>\<open>set_range(10000)\<close> and calls the decoder until it returns
  \<^verbatim>\<open>SetRange\<close>; each wait ends at the first clock reading two seconds or more after the
  reading taken when the command was sent. If the deadline of the first wait is missed,
  the program writes to \<open>stderr\<close> the line
  \<^verbatim>\<open>Error initialising sensor - did not receive response from 'ABC off' command\<close>
  and returns 1, having sent nothing else; if the first wait is acknowledged and the
  deadline of the second is missed, it writes the line
  \<^verbatim>\<open>Error initialising sensor - did not receive response from 'Set range' command\<close>
  and returns 1. Each line describes the failure and names the command that was not
  answered, and the two lines differ. In particular a link that never delivers a byte
  ends the program with status 1 and the \<open>ABC off\<close> line as soon as the clock has
  advanced by two seconds.
\<close>

theorem handshake_timeouts:
  "(\<exists>xs. link_tx (snd (main clock w)) = link_tx w @ abc_off_frame # xs)
   \<and> (deadline_missed ABCOff t0 ts (abc_off w) \<longrightarrow>
        fst (main (t0 # ts) w) = Exited 1
        \<and> stderr (snd (main (t0 # ts) w)) =
            stderr w @ [''Error initialising sensor - did not receive response from 'ABC off' command\<newline>'']
        \<and> link_tx (snd (main (t0 # ts) w)) = link_tx w @ [abc_off_frame])
   \<and> (acknowledged ABCOff t0 ts (abc_off w) n \<longrightarrow>
        (\<exists>xs. link_tx (snd (main (t0 # ts) w)) =
           link_tx w @ abc_off_frame # [0xff, 0x01, 0x99, 0x27, 0x10, 0, 0, 0, 0x2F] # xs))
   \<and> (acknowledged ABCOff t0 ts (abc_off w) n \<and> drop (Suc n) ts = t1 # ts1
        \<and> deadline_missed SetRange t1 ts1 (snd (set_range 10000 (snd (pump (Suc n) (abc_off w)))))
      \<longrightarrow>
        fst (main (t0 # ts) w) = Exited 1
        \<and> stderr (snd (main (t0 # ts) w)) =
            stderr w @ [''Error initialising sensor - did not receive response from 'Set range' command\<newline>'']
        \<and> link_tx (snd (main (t0 # ts) w)) =
            link_tx w @ [abc_off_frame, [0xff, 0x01, 0x99, 0x27, 0x10, 0, 0, 0, 0x2F]])
   \<and> ((\<forall>r \<in> set (link_rx w). r = None) \<and> (\<exists>t \<in> set ts. 2 \<le> t - t0) \<longrightarrow>
        fst (main (t0 # ts) w) = Exited 1
        \<and> stderr (snd (main (t0 # ts) w)) =
            stderr w @ [''Error initialising sensor - did not receive response from 'ABC off' command\<newline>''])"
proof (intro conjI impI)
  show "\<exists>xs. link_tx (snd (main clock w)) = link_tx w @ abc_off_frame # xs"
    by (rule main_sends_abc_off_first)
next
  assume "deadline_missed ABCOff t0 ts (abc_off w)"
  then obtain clock' w' where
    wr: "wait_response ABCOff t0 ts (abc_off w) = (Some True, clock', w')"
    using wait_response_missed by blast
  from wait_response_outputs [OF wr] main_abc_timeout [OF wr]
  show "fst (main (t0 # ts) w) = Exited 1"
    and "stderr (snd (main (t0 # ts) w)) =
            stderr w @ [''Error initialising sensor - did not receive response from 'ABC off' command\<newline>'']"
    and "link_tx (snd (main (t0 # ts) w)) = link_tx w @ [abc_off_frame]"
    by (simp_all add: abc_off_def write_fd_def abc_off_message_def)
next
  assume "acknowledged ABCOff t0 ts (abc_off w) n"
  then have "wait_response ABCOff t0 ts (abc_off w) =
      (Some False, drop (Suc n) ts, snd (pump (Suc n) (abc_off w)))"
    by (rule wait_response_acknowledged)
  then show "\<exists>xs. link_tx (snd (main (t0 # ts) w)) =
           link_tx w @ abc_off_frame # [0xff, 0x01, 0x99, 0x27, 0x10, 0, 0, 0, 0x2F] # xs"
    by (rule main_sends_set_range)
next
  assume a: "acknowledged ABCOff t0 ts (abc_off w) n \<and> drop (Suc n) ts = t1 # ts1
        \<and> deadline_missed SetRange t1 ts1 (snd (set_range 10000 (snd (pump (Suc n) (abc_off w)))))"
  let ?w1 = "snd (pump (Suc n) (abc_off w))"
  from a have wr: "wait_response ABCOff t0 ts (abc_off w) = (Some False, t1 # ts1, ?w1)"
    using wait_response_acknowledged [of ABCOff t0 ts "abc_off w" n] by simp
  from a obtain clock' w' where
    wr2: "wait_response SetRange t1 ts1 (snd (set_range 10000 ?w1)) = (Some True, clock', w')"
    using wait_response_missed by blast
  from wait_response_outputs [OF wr] wait_response_outputs [OF wr2]
    main_range_timeout [OF wr wr2]
  show "fst (main (t0 # ts) w) = Exited 1"
    and "stderr (snd (main (t0 # ts) w)) =
            stderr w @ [''Error initialising sensor - did not receive response from 'Set range' command\<newline>'']"
    and "link_tx (snd (main (t0 # ts) w)) =
            link_tx w @ [abc_off_frame, [0xff, 0x01, 0x99, 0x27, 0x10, 0, 0, 0, 0x2F]]"
    by (simp_all add: abc_off_def write_fd_def set_range_10000 set_range_message_def)
next
  assume "(\<forall>r \<in> set (link_rx w). r = None) \<and> (\<exists>t \<in> set ts. 2 \<le> t - t0)"
  then have "\<forall>r \<in> set (link_rx (abc_off w)). r = None" and "\<exists>t \<in> set ts. 2 \<le> t - t0"
    by (simp_all add: abc_off_def write_fd_def abc_off_message_def)
  then obtain clock' w' where
    wr: "wait_response ABCOff t0 ts (abc_off w) = (Some True, clock', w')"
    using wait_response_silent [of "abc_off w" ABCOff ts t0] by auto
  from wait_response_outputs [OF wr] main_abc_timeout [OF wr]
  show "fst (main (t0 # ts) w) = Exited 1"
    and "stderr (snd (main (t0 # ts) w)) =
            stderr w @ [''Error initialising sensor - did not receive response from 'ABC off' command\<newline>'']"
    by (simp_all add: abc_off_def write_fd_def abc_off_message_def)
qed

theorem handshake_timeouts_witness:
  "deadline_missed ABCOff 0 [0, 1, 2] (abc_off (world_init []))
   \<and> fst (main [0, 0, 1, 2] (world_init [])) = Exited 1
   \<and> stderr (snd (main [0, 0, 1, 2] (world_init []))) =
       [''Error initialising sensor - did not receive response from 'ABC off' command\<newline>'']
   \<and> link_tx (snd (main [0, 0, 1, 2] (world_init []))) = [abc_off_frame]
   \<and> acknowledged ABCOff 0 [0, 0, 0, 0, 0, 0, 0, 0, 0, 5, 5, 7]
        (abc_off (world_init (map Some [0xff, 0x79, 0x01, 0, 0, 0, 0, 0, 0x86]))) 8
   \<and> fst (main [0, 0, 0, 0, 0, 0, 0, 0, 0, 0, 5, 5, 7]
            (world_init (map Some [0xff, 0x79, 0x01, 0, 0, 0, 0, 0, 0x86]))) = Exited 1
   \<and> stderr (snd (main [0, 0, 0, 0, 0, 0, 0, 0, 0, 0, 5, 5, 7]
            (world_init (map Some [0xff, 0x79, 0x01, 0, 0, 0, 0, 0, 0x86])))) =
       [''Error initialising sensor - did not receive response from 'Set range' command\<newline>'']"
proof -
  let ?w = "world_init (map Some [0xff, 0x79, 0x01, 0, 0, 0, 0, 0, 0x86])"
  have h1: "deadline_missed ABCOff 0 [0, 1, 2] (abc_off (world_init []))"
    by code_simp
  have h2: "acknowledged ABCOff 0 [0, 0, 0, 0, 0, 0, 0, 0, 0, 5, 5, 7] (abc_off ?w) 8"
    by code_simp
  have h3: "deadline_missed SetRange 5 [5, 7]
      (snd (set_range 10000 (snd (pump (Suc 8) (abc_off ?w)))))"
    by code_simp
  have h4: "drop (Suc 8) [0, 0, 0, 0, 0, 0, 0, 0, 0, 5, 5, 7] = 5 # [5, 7 :: int]"
    by simp
  from h1 handshake_timeouts [of "[]" "world_init []" 0 "[0, 1, 2]" 0 0 "[]"]
  have a: "fst (main [0, 0, 1, 2] (world_init [])) = Exited 1
     \<and> stderr (snd (main [0, 0, 1, 2] (world_init []))) =
       [''Error initialising sensor - did not receive response from 'ABC off' command\<newline>'']
     \<and> link_tx (snd (main [0, 0, 1, 2] (world_init []))) = [abc_off_frame]"
    by (simp add: world_init_def)
  from h2 h3 h4 handshake_timeouts [of "[]" ?w 0 "[0, 0, 0, 0, 0, 0, 0, 0, 0, 5, 5, 7]" 8 5 "[5, 7]"]
  have b: "fst (main [0, 0, 0, 0, 0, 0, 0, 0, 0, 0, 5, 5, 7] ?w) = Exited 1
     \<and> stderr (snd (main [0, 0, 0, 0, 0, 0, 0, 0, 0, 0, 5, 5, 7] ?w)) =
       [''Error initialising sensor - did not receive response from 'Set range' command\<newline>'']"
    by (simp add: world_init_def)
  from h1 h2 a b show ?thesis
    by simp
qed

section \<open>What is printed\<close>

lemma byte_range: "0 \<le> uint (b :: byte) \<and> uint b \<le> 255"
  using uint_lt2p [of b] by simp

lemma rx_packet_level_ok:
  assumes "level_ok d"
  shows "level_ok (snd (rx_packet rd d))"
proof (cases rd)
  case None
  with assms show ?thesis by (simp add: rx_packet_def)
next
  case (Some c)
  from byte_range [of "byte3 d"] byte_range [of c]
  have "0 \<le> 256 * uint (byte3 d) + uint c \<and> 256 * uint (byte3 d) + uint c \<le> 65535"
    by simp
  with assms Some show ?thesis
    by (auto simp: rx_packet_def level_ok_def Let_def)
qed

lemma rx_packet_CO2Level_range:
  assumes "level_ok d" and "fst (rx_packet rd d) = CO2Level"
  shows "0 \<le> co2_level (snd (rx_packet rd d)) \<and> co2_level (snd (rx_packet rd d)) \<le> 65535"
proof -
  from assms(2) have "fst (rx_packet rd d) \<noteq> None_packet" by simp
  from rx_packet_returns [OF this] assms(2) obtain c where
    c: "rd = Some c" "rxstate d = 9" "packet d = CO2Level"
    by auto
  with assms(1) show ?thesis
    by (simp add: rx_packet_state9 level_ok_def)
qed

lemma rx_packet_fd_printed_ok:
  assumes "printed_ok w"
  shows "printed_ok (snd (rx_packet_fd w))"
    and "fst (rx_packet_fd w) = CO2Level \<Longrightarrow>
         0 \<le> co2_level (dec (snd (rx_packet_fd w)))
         \<and> co2_level (dec (snd (rx_packet_fd w))) \<le> 65535"
proof -
  obtain r w1 where r: "read_fd w = (r, w1)"
    by (cases "read_fd w")
  then have w1: "dec w1 = dec w" "stdout w1 = stdout w"
    by (auto simp: read_fd_def split: list.splits)
  from r have fd: "rx_packet_fd w = (fst (rx_packet r (dec w)), w1\<lparr>dec := snd (rx_packet r (dec w))\<rparr>)"
    by (simp add: rx_packet_fd_def w1 split: prod.splits)
  from assms have ok: "level_ok (dec w)"
    by (simp add: printed_ok_def)
  from rx_packet_level_ok [OF ok] assms show "printed_ok (snd (rx_packet_fd w))"
    by (simp add: fd printed_ok_def w1)
  show "0 \<le> co2_level (dec (snd (rx_packet_fd w)))
         \<and> co2_level (dec (snd (rx_packet_fd w))) \<le> 65535"
    if "fst (rx_packet_fd w) = CO2Level"
    using that rx_packet_CO2Level_range [OF ok, of r] by (simp add: fd)
qed

lemma write_fd_printed_ok: "printed_ok w \<Longrightarrow> printed_ok (write_fd buf w)"
  by (simp add: printed_ok_def write_fd_def)

lemma set_range_printed_ok: "printed_ok w \<Longrightarrow> printed_ok (snd (set_range r w))"
  by (simp add: set_range_def Let_def write_fd_printed_ok)

lemma wait_response_printed_ok:
  "printed_ok w \<Longrightarrow> wait_response want ref_time clock w = (r, clock', w') \<Longrightarrow> printed_ok w'"
proof (induction clock arbitrary: w)
  case Nil
  then show ?case by simp
next
  case (Cons t clock)
  obtain p w1 where p: "rx_packet_fd w = (p, w1)"
    by (cases "rx_packet_fd w")
  with rx_packet_fd_printed_ok(1) [OF Cons.prems(1)] have ok1: "printed_ok w1"
    by simp
  show ?case
  proof (cases "t - ref_time < 2 \<and> p \<noteq> want")
    case True
    with Cons.prems(2) p have "wait_response want ref_time clock w1 = (r, clock', w')"
      by simp
    with ok1 show ?thesis by (rule Cons.IH)
  next
    case False
    with Cons.prems p ok1 show ?thesis
      by (auto split: if_splits)
  qed
qed

lemma loop_body_stdout:
  "stdout (snd (loop_body (ref_time, w) t)) =
     stdout w @ (if fst (rx_packet_fd w) = CO2Level
                 then [co2_level (dec (snd (rx_packet_fd w)))] else [])"
proof -
  obtain p w1 where p: "rx_packet_fd w = (p, w1)"
    by (cases "rx_packet_fd w")
  with rx_packet_fd_outputs(2) [of w] have "stdout w1 = stdout w"
    by simp
  with p show ?thesis
    by (simp add: loop_body_def Let_def request_co2_level_def write_fd_def)
qed

lemma loop_body_printed_ok:
  assumes "printed_ok w"
  shows "printed_ok (snd (loop_body (ref_time, w) t))"
proof -
  obtain p w1 where p: "rx_packet_fd w = (p, w1)"
    by (cases "rx_packet_fd w")
  from rx_packet_fd_printed_ok [OF assms] p
  have ok1: "printed_ok w1"
    and rng: "p = CO2Level \<Longrightarrow> 0 \<le> co2_level (dec w1) \<and> co2_level (dec w1) \<le> 65535"
    by simp_all
  then have "printed_ok (if p = CO2Level then w1\<lparr>stdout := stdout w1 @ [co2_level (dec w1)]\<rparr> else w1)"
    by (auto simp: printed_ok_def)
  then show ?thesis
    by (simp add: loop_body_def Let_def p request_co2_level_def write_fd_printed_ok)
qed

lemma steady_state_printed_ok:
  "printed_ok w \<Longrightarrow> printed_ok (snd (steady_state ref_time clock w))"
proof (induction clock rule: rev_induct)
  case Nil
  then show ?case by (simp add: steady_state_def)
next
  case (snoc t clock)
  obtain r1 w1 where s1: "steady_state ref_time clock w = (r1, w1)"
    by (cases "steady_state ref_time clock w")
  with snoc have "printed_ok w1" by simp
  then have "printed_ok (snd (loop_body (r1, w1) t))"
    by (rule loop_body_printed_ok)
  with s1 show ?case
    by (simp add: steady_state_def)
qed

lemma main_printed_ok:
  assumes "printed_ok w"
  shows "printed_ok (snd (main clock w))"
proof -
  have ok0: "printed_ok (abc_off w)"
    using assms by (simp add: abc_off_def write_fd_printed_ok)
  show ?thesis
  proof (cases clock)
    case Nil
    with ok0 show ?thesis by (simp add: main_def Let_def)
  next
    case (Cons t0 ts)
    obtain r c1 w1 where wr: "wait_response ABCOff t0 ts (abc_off w) = (r, c1, w1)"
      by (cases "wait_response ABCOff t0 ts (abc_off w)")
    from wait_response_printed_ok [OF ok0 wr] have ok1: "printed_ok w1" .
    then have ok1': "printed_ok (w1\<lparr>stderr := stderr w1 @ [abc_off_message]\<rparr>)"
      by (simp add: printed_ok_def)
    from ok1 have ok2: "printed_ok (snd (set_range 10000 w1))"
      by (rule set_range_printed_ok)
    show ?thesis
    proof (cases "r = Some False \<and> c1 \<noteq> []")
      case False
      with wr ok1 ok1' ok2 Cons show ?thesis
        by (auto simp: main_def Let_def split: option.splits bool.splits list.splits)
    next
      case True
      then obtain t1 ts1 where c1: "c1 = t1 # ts1" and r: "r = Some False"
        by (cases c1) auto
      obtain r' c2 w2 where wr2:
        "wait_response SetRange t1 ts1 (snd (set_range 10000 w1)) = (r', c2, w2)"
        by (cases "wait_response SetRange t1 ts1 (snd (set_range 10000 w1))")
      from wait_response_printed_ok [OF ok2 wr2] have ok3: "printed_ok w2" .
      then have ok3': "printed_ok (w2\<lparr>stderr := stderr w2 @ [set_range_message]\<rparr>)"
        by (simp add: printed_ok_def)
      from ok3 have ok4: "\<And>t ts. printed_ok (snd (steady_state t ts w2))"
        by (rule steady_state_printed_ok)
      from wr wr2 c1 r ok3 ok3' ok4 Cons show ?thesis
        by (auto simp: main_def Let_def split: option.splits bool.splits list.splits)
    qed
  qed
qed


lemma partial_frame_CO2Level:
  assumes "partial_frame f d" and "fst (rx_packet rd d) = CO2Level"
  shows "\<exists>c. rd = Some c \<and> length f = 8 \<and> f ! 0 = 0xff \<and> f ! 1 = 0x86
     \<and> co2_level (snd (rx_packet rd d)) = 256 * uint (f ! 2) + uint (f ! 3)"
proof -
  from assms(2) have "fst (rx_packet rd d) \<noteq> None_packet" by simp
  from rx_packet_returns [OF this] assms(2) obtain c where
    c: "rd = Some c" "rxstate d = 9" "packet d = CO2Level"
    by auto
  from assms(1) c(2) have len: "length f = 8"
    by (simp add: partial_frame_def)
  with assms(1) c(3) have "f ! 0 = 0xff" and k: "classify (f ! 1) = CO2Level"
    and "co2_level d = 256 * uint (f ! 2) + uint (f ! 3)"
    by (simp_all add: partial_frame_def)
  moreover from k have "f ! 1 = 0x86"
    by (simp add: classify_def split: if_splits)
  ultimately show ?thesis
    using c len by (simp add: rx_packet_state9)
qed

lemma partial_frame_next:
  assumes "partial_frame f d"
  shows "\<exists>pre f'. f @ [c] = pre @ f' \<and> partial_frame f' (snd (rx_packet (Some c) d))"
proof -
  from assms have "length f \<le> 8" and st: "rxstate d = int (length f) + 1"
    by (simp_all add: partial_frame_def)
  then consider "length f = 0" | "length f = 1" | "length f = 2" | "length f = 3"
    | "length f = 4" | "length f = 5" | "length f = 6" | "length f = 7" | "length f = 8"
    by linarith
  then show ?thesis
  proof cases
    case 1
    with st have s: "rxstate d = 1" by simp
    show ?thesis
    proof (cases "c = 0xff")
      case True
      with 1 s have "partial_frame [c] (snd (rx_packet (Some c) d))"
        by (simp add: rx_packet_state1 partial_frame_def)
      with 1 show ?thesis by (intro exI [of _ "[]"] exI [of _ "[c]"]) simp
    next
      case False
      with 1 s have "partial_frame [] (snd (rx_packet (Some c) d))"
        by (simp add: rx_packet_state1 partial_frame_def)
      then show ?thesis by (intro exI [of _ "f @ [c]"] exI [of _ "[]"]) simp
    qed
  next
    case 2
    with st have "rxstate d = 2" by simp
    with assms 2 have "partial_frame (f @ [c]) (snd (rx_packet (Some c) d))"
      by (simp add: rx_packet_state2 partial_frame_def nth_append)
    then show ?thesis by (intro exI [of _ "[]"] exI [of _ "f @ [c]"]) simp
  next
    case 3
    with st have "rxstate d = 3" by simp
    with assms 3 have "partial_frame (f @ [c]) (snd (rx_packet (Some c) d))"
      by (simp add: rx_packet_state3 partial_frame_def nth_append)
    then show ?thesis by (intro exI [of _ "[]"] exI [of _ "f @ [c]"]) simp
  next
    case 4
    with st have "rxstate d = 4" by simp
    with assms 4 have "partial_frame (f @ [c]) (snd (rx_packet (Some c) d))"
      by (simp add: rx_packet_state4 partial_frame_def nth_append)
    then show ?thesis by (intro exI [of _ "[]"] exI [of _ "f @ [c]"]) simp
  next
    case 5
    with st have "rxstate d = 5" by simp
    with assms 5 have "partial_frame (f @ [c]) (snd (rx_packet (Some c) d))"
      by (simp add: rx_packet_state5678 partial_frame_def nth_append)
    then show ?thesis by (intro exI [of _ "[]"] exI [of _ "f @ [c]"]) simp
  next
    case 6
    with st have "rxstate d = 6" by simp
    with assms 6 have "partial_frame (f @ [c]) (snd (rx_packet (Some c) d))"
      by (simp add: rx_packet_state5678 partial_frame_def nth_append)
    then show ?thesis by (intro exI [of _ "[]"] exI [of _ "f @ [c]"]) simp
  next
    case 7
    with st have "rxstate d = 7" by simp
    with assms 7 have "partial_frame (f @ [c]) (snd (rx_packet (Some c) d))"
      by (simp add: rx_packet_state5678 partial_frame_def nth_append)
    then show ?thesis by (intro exI [of _ "[]"] exI [of _ "f @ [c]"]) simp
  next
    case 8
    with st have "rxstate d = 8" by simp
    with assms 8 have "partial_frame (f @ [c]) (snd (rx_packet (Some c) d))"
      by (simp add: rx_packet_state5678 partial_frame_def nth_append)
    then show ?thesis by (intro exI [of _ "[]"] exI [of _ "f @ [c]"]) simp
  next
    case 9
    with st have "rxstate d = 9" by simp
    then have "partial_frame [] (snd (rx_packet (Some c) d))"
      by (simp add: rx_packet_state9 partial_frame_def)
    then show ?thesis by (intro exI [of _ "f @ [c]"] exI [of _ "[]"]) simp
  qed
qed

lemma feed_Nil_iff: "fst (feed rs d) = [] \<longleftrightarrow> rs = []"
  by (cases rs) (simp_all add: feed_Cons del: feed.simps(2))

lemma consumed_simps:
  "consumed [] = []"
  "consumed (None # rs) = consumed rs"
  "consumed (Some c # rs) = c # consumed rs"
  by (simp_all add: consumed_def)

lemma feed_partial_frame:
  assumes "partial_frame f d" and "fst (feed rs d) \<noteq> []"
    and "last (fst (feed rs d)) = CO2Level"
  shows "\<exists>pre F. f @ consumed rs = pre @ F \<and> length F = 9 \<and> F ! 0 = 0xff \<and> F ! 1 = 0x86
     \<and> co2_level (snd (feed rs d)) = 256 * uint (F ! 2) + uint (F ! 3)"
  using assms
proof (induction rs arbitrary: f d)
  case Nil
  then show ?case by simp
next
  case (Cons r rs)
  let ?d1 = "snd (rx_packet r d)"
  show ?case
  proof (cases "rs = []")
    case True
    with Cons.prems(3) have ret: "fst (rx_packet r d) = CO2Level"
      by (simp add: feed_Cons del: feed.simps(2))
    from partial_frame_CO2Level [OF Cons.prems(1) ret] obtain c where
      c: "r = Some c" "length f = 8" "f ! 0 = 0xff" "f ! 1 = 0x86"
        "co2_level ?d1 = 256 * uint (f ! 2) + uint (f ! 3)"
      by blast
    with True show ?thesis
      by (intro exI [of _ "[]"] exI [of _ "f @ [c]"])
        (simp add: feed_Cons consumed_simps nth_append del: feed.simps(2))
  next
    case False
    then have ne: "fst (feed rs ?d1) \<noteq> []"
      by (simp add: feed_Nil_iff)
    with Cons.prems(3) have lst: "last (fst (feed rs ?d1)) = CO2Level"
      by (simp add: feed_Cons del: feed.simps(2))
    show ?thesis
    proof (cases r)
      case None
      then have "?d1 = d" by (simp add: rx_packet_def)
      with Cons.IH [of f d] Cons.prems(1) ne lst None show ?thesis
        by (simp add: feed_Cons consumed_simps del: feed.simps(2))
    next
      case (Some c)
      from partial_frame_next [OF Cons.prems(1), of c] Some obtain pre0 f' where
        f': "f @ [c] = pre0 @ f'" "partial_frame f' ?d1"
        by auto
      from Cons.IH [OF f'(2) ne lst] obtain pre F where
        F: "f' @ consumed rs = pre @ F" "length F = 9" "F ! 0 = 0xff" "F ! 1 = 0x86"
          "co2_level (snd (feed rs ?d1)) = 256 * uint (F ! 2) + uint (F ! 3)"
        by blast
      have "f @ consumed (r # rs) = (f @ [c]) @ consumed rs"
        by (simp add: Some consumed_simps)
      also have "\<dots> = (pre0 @ pre) @ F"
        by (simp add: f'(1) F(1))
      finally have "f @ consumed (r # rs) = (pre0 @ pre) @ F" .
      with F show ?thesis
        by (intro exI [of _ "pre0 @ pre"] exI [of _ F]) (simp add: feed_Cons del: feed.simps(2))
    qed
  qed
qed

lemma partial_frame_init: "partial_frame [] decoder_init"
  by (simp add: partial_frame_def decoder_init_def)

lemma printed_ok_init: "printed_ok (world_init rx)"
  by (simp add: printed_ok_def world_init_def level_ok_def decoder_init_def)

text \<open>
  Claim C10. The measurement starts at \<open>-1\<close>. An iteration of the steady-state loop
  prints exactly when its call of the decoder returns \<^verbatim>\<open>CO2Level\<close>, and prints the
  measurement as it is then. Whenever a call of the decoder, started from its initial
  variables, returns \<^verbatim>\<open>CO2Level\<close>, the bytes read so far end with a nine-byte frame that
  starts with FF 86, and the measurement is 256 times the third byte of that frame (the
  source's \<^verbatim>\<open>byte3\<close>) plus its fourth byte. Hence every value that the program prints,
  whatever the clock and the link do, lies between 0 and 65535, and \<open>-1\<close> is never
  printed.
\<close>

theorem printed_levels:
  "co2_level decoder_init = - 1
   \<and> stdout (snd (loop_body (ref_time, w) t)) =
       stdout w @ (if fst (rx_packet_fd w) = CO2Level
                   then [co2_level (dec (snd (rx_packet_fd w)))] else [])
   \<and> (fst (feed rs decoder_init) \<noteq> [] \<and> last (fst (feed rs decoder_init)) = CO2Level \<longrightarrow>
        (\<exists>pre F. consumed rs = pre @ F \<and> length F = 9 \<and> F ! 0 = 0xff \<and> F ! 1 = 0x86
           \<and> co2_level (snd (feed rs decoder_init)) = 256 * uint (F ! 2) + uint (F ! 3)))
   \<and> (\<forall>v \<in> set (stdout (snd (main clock (world_init rx)))). 0 \<le> v \<and> v \<le> 65535 \<and> v \<noteq> - 1)"
proof (intro conjI impI)
  show "co2_level decoder_init = - 1"
    by (simp add: decoder_init_def)
next
  show "stdout (snd (loop_body (ref_time, w) t)) =
       stdout w @ (if fst (rx_packet_fd w) = CO2Level
                   then [co2_level (dec (snd (rx_packet_fd w)))] else [])"
    by (rule loop_body_stdout)
next
  assume "fst (feed rs decoder_init) \<noteq> [] \<and> last (fst (feed rs decoder_init)) = CO2Level"
  with feed_partial_frame [OF partial_frame_init, of rs]
  show "\<exists>pre F. consumed rs = pre @ F \<and> length F = 9 \<and> F ! 0 = 0xff \<and> F ! 1 = 0x86
           \<and> co2_level (snd (feed rs decoder_init)) = 256 * uint (F ! 2) + uint (F ! 3)"
    by simp
next
  have "printed_ok (snd (main clock (world_init rx)))"
    using printed_ok_init by (rule main_printed_ok)
  then show "\<forall>v \<in> set (stdout (snd (main clock (world_init rx)))). 0 \<le> v \<and> v \<le> 65535 \<and> v \<noteq> - 1"
    by (auto simp: printed_ok_def)
qed

theorem printed_levels_witness:
  "fst (feed (map Some frame_420) decoder_init) \<noteq> []
   \<and> last (fst (feed (map Some frame_420) decoder_init)) = CO2Level
   \<and> co2_level (snd (feed (map Some frame_420) decoder_init)) = 256 * 1 + 164
   \<and> stdout (snd (main (replicate 30 0)
        (world_init (map Some ([0xff, 0x79, 0x01, 0, 0, 0, 0, 0, 0x86]
           @ [0xff, 0x99, 0x01, 0, 0, 0, 0, 0, 0x66] @ frame_420))))) = [420]
   \<and> list_all (\<lambda>v. 0 \<le> v \<and> v \<le> 65535) (stdout (snd (main (replicate 30 0)
        (world_init (map Some ([0xff, 0x79, 0x01, 0, 0, 0, 0, 0, 0x86]
           @ [0xff, 0x99, 0x01, 0, 0, 0, 0, 0, 0x66] @ frame_420))))))"
proof -
  have e1: "fst (feed (map Some frame_420) decoder_init) \<noteq> []
     \<and> last (fst (feed (map Some frame_420) decoder_init)) = CO2Level
     \<and> co2_level (snd (feed (map Some frame_420) decoder_init)) = 256 * 1 + 164"
    by code_simp
  have e2: "stdout (snd (main (replicate 30 0)
        (world_init (map Some ([0xff, 0x79, 0x01, 0, 0, 0, 0, 0, 0x86]
           @ [0xff, 0x99, 0x01, 0, 0, 0, 0, 0, 0x66] @ frame_420))))) = [420]"
    by code_simp
  from e1 e2 printed_levels [of 0 "world_init []" 0 "map Some frame_420" "replicate 30 0"
      "map Some ([0xff, 0x79, 0x01, 0, 0, 0, 0, 0, 0x86]
           @ [0xff, 0x99, 0x01, 0, 0, 0, 0, 0, 0x66] @ frame_420)"]
  show ?thesis
    by simp
qed

end
